theory Spec2Isabelle
  imports Complex_Main "HOL-Library.Multiset"
begin

section \<open>The quiz game of \<open>quiz.py\<close>\<close>

text \<open>
  A shallow embedding of the class \<open>QuizGame\<close>. A question is a JSON object read from
  \<open>questions.json\<close>; the code reads the keys \<open>question\<close>, \<open>options\<close>, \<open>correct_answer\<close>
  with \<open>q['key']\<close> (a missing key raises \<open>KeyError\<close>) and the keys \<open>category\<close>,
  \<open>difficulty\<close> with \<open>q.get('key')\<close> (a missing key reads as \<open>None\<close>). Every key is
  therefore an optional field, \<open>None\<close> standing for an absent key. The file is taken
  to hold a list of JSON objects under the key \<open>questions\<close>, the values to be strings and
  every option to carry its two keys \<open>letter\<close> and \<open>text\<close>, as in the sample data of the
  file, with one exception. The value of \<open>category\<close> is put into a Python set when the
  file is loaded, which raises \<open>TypeError\<close> for a value that cannot be hashed: a category
  is a string or an unhashable value (a JSON array or object), whose content is never
  read.
\<close>

subsection \<open>Data\<close>

datatype category_value = Str string | Unhashable

record quiz_option =
  letter :: string
  opt_text :: string

record question =
  question :: "string option"
  options :: "quiz_option list option"
  correct_answer :: "string option"
  category :: "category_value option"
  difficulty :: "string option"

text \<open>The dictionaries that \<open>check_answer\<close> appends to \<open>self.user_answers\<close>.\<close>

record answer_record =
  ar_question :: string
  ar_user_answer :: string
  ar_correct_answer :: string
  ar_is_correct :: bool

text \<open>
  The attributes of a \<open>QuizGame\<close> object. The score starts as the integer 0 and grows by
  1 and by 0.5: every value it takes is a multiple of one half, which a Python float
  holds exactly, so it is a \<open>real\<close> here. \<open>filtered_questions\<close> is the attribute that
  \<open>run\<close> sets from \<open>filter_questions\<close>.
\<close>

record game =
  questions :: "question list"
  score :: real
  current_question :: nat
  quiz_start_time :: real
  quiz_duration :: real
  user_answers :: "answer_record list"
  categories :: "string set"
  selected_category :: "string option"
  difficulty_levels :: "string list"
  selected_difficulty :: "string option"
  filtered_questions :: "question list"

datatype py_error =
  KeyError string | EOFError | FileNotFoundError | JSONDecodeError | TypeError

text \<open>\<open>__init__\<close>; \<open>filtered_questions\<close> does not exist yet and is modelled as empty.\<close>

definition init :: game where
  "init = \<lparr>questions = [], score = 0, current_question = 0, quiz_start_time = 0,
     quiz_duration = 0, user_answers = [], categories = {}, selected_category = None,
     difficulty_levels = [''Easy'', ''Medium'', ''Hard''], selected_difficulty = None,
     filtered_questions = []\<rparr>"

subsection \<open>Selecting the questions\<close>

text \<open>
  Python's truth value of an attribute that holds \<open>None\<close> or a string: \<open>None\<close> and the
  empty string are false.
\<close>

definition truthy :: "string option \<Rightarrow> bool" where
  "truthy v = (case v of None \<Rightarrow> False | Some s \<Rightarrow> s \<noteq> [])"

text \<open>
  The body of the loop of \<open>filter_questions\<close>: a question is appended to \<open>filtered\<close>
  unless one of the two \<open>continue\<close> statements is reached. The selected category is
  a string; a category that is not that string, an unhashable one included, is unequal
  to it.
\<close>

definition kept :: "string option \<Rightarrow> string option \<Rightarrow> question \<Rightarrow> bool" where
  "kept sel_cat sel_diff q =
     (if truthy sel_cat \<and> category q \<noteq> map_option Str sel_cat then False
      else if truthy sel_diff \<and> difficulty q \<noteq> sel_diff then False
      else True)"

text \<open>
  \<open>random.shuffle\<close> of the standard library: for \<open>i\<close> from \<open>len(x) - 1\<close> down to 1 it
  draws \<open>j = randbelow(i + 1)\<close> and swaps \<open>x[i]\<close> and \<open>x[j]\<close>. The random source is the
  parameter \<open>rnd\<close>: \<open>rnd i\<close> is the number drawn at index \<open>i\<close>, reduced into range.
\<close>

fun shuffle_from :: "(nat \<Rightarrow> nat) \<Rightarrow> nat \<Rightarrow> 'a list \<Rightarrow> 'a list" where
  "shuffle_from rnd 0 xs = xs"
| "shuffle_from rnd (Suc i) xs =
     (let j = rnd (Suc i) mod (Suc (Suc i))
      in shuffle_from rnd i (xs[Suc i := xs ! j, j := xs ! Suc i]))"

definition shuffle :: "(nat \<Rightarrow> nat) \<Rightarrow> 'a list \<Rightarrow> 'a list" where
  "shuffle rnd xs = shuffle_from rnd (length xs - 1) xs"

definition filter_questions :: "(nat \<Rightarrow> nat) \<Rightarrow> game \<Rightarrow> question list" where
  "filter_questions rnd g =
     (let filtered = filter (kept (selected_category g) (selected_difficulty g)) (questions g)
      in if filtered = [] then questions g
         else take 10 (shuffle rnd filtered))"

subsection \<open>The console and the clock\<close>

text \<open>
  The two collaborators of the prompt. \<open>stdin\<close> is what the user will do at the
  successive calls of \<open>input()\<close>: type a line, or close the input (\<open>input()\<close> raises
  \<open>EOFError\<close>); once the script is used up nobody types any more, and \<open>input()\<close>, a
  blocking read, never returns. \<open>clock\<close> gives the value of the successive calls of
  \<open>time.time()\<close>, \<open>ticks\<close> counting the calls made so far.
\<close>

datatype input_event = Line string | EOF

record world =
  stdin :: "input_event list"
  clock :: "nat \<Rightarrow> real"
  ticks :: nat

text \<open>\<open>input(prompt)\<close>: \<open>None\<close> is the call that never returns.\<close>

definition input :: "world \<Rightarrow> (py_error + string \<times> world) option" where
  "input w =
     (case stdin w of
        [] \<Rightarrow> None
      | EOF # rest \<Rightarrow> Some (Inl EOFError)
      | Line s # rest \<Rightarrow> Some (Inr (s, w\<lparr>stdin := rest\<rparr>)))"

definition time_time :: "world \<Rightarrow> real \<times> world" where
  "time_time w = (clock w (ticks w), w\<lparr>ticks := Suc (ticks w)\<rparr>)"

text \<open>
  \<open>str.upper\<close> on ASCII text: each of the letters a to z is replaced by its capital,
  every other character is left as it is.
\<close>

definition ascii_lowercase :: string where
  "ascii_lowercase = ''abcdefghijklmnopqrstuvwxyz''"

definition ascii_uppercase :: string where
  "ascii_uppercase = ''ABCDEFGHIJKLMNOPQRSTUVWXYZ''"

definition upper_char :: "char \<Rightarrow> char" where
  "upper_char c =
     (case map_of (zip ascii_lowercase ascii_uppercase) c of None \<Rightarrow> c | Some u \<Rightarrow> u)"

definition upper :: "string \<Rightarrow> string" where
  "upper s = map upper_char s"

subsection \<open>The timed prompt\<close>

text \<open>
  One pass through the body of the \<open>while True\<close> loop of \<open>ask_question\<close>. The four
  ways it ends are the four states of the prompt: the \<open>Time's up!\<close> branch, the skip
  branch, the answer branch, and the \<open>Invalid input\<close> branch, after which the loop goes
  round again.
\<close>

datatype prompt_state = Presented | Answered string bool | Skipped | TimedOut

definition prompt_iteration ::
  "string list \<Rightarrow> real \<Rightarrow> world \<Rightarrow> (py_error + prompt_state \<times> world) option" where
  "prompt_iteration letters start_time w =
     (case input w of
        None \<Rightarrow> None
      | Some (Inl e) \<Rightarrow> Some (Inl e)
      | Some (Inr (line, w1)) \<Rightarrow>
          (let answer = upper line;
               (now, w2) = time_time w1
           in if now - start_time > 10 then Some (Inr (TimedOut, w2))
              else if answer = ''S'' then Some (Inr (Skipped, w2))
              else if answer \<in> set letters then
                (let (now', w3) = time_time w2;
                     time_taken = now' - start_time
                 in Some (Inr (Answered answer (time_taken < 5), w3)))
              else Some (Inr (Presented, w2))))"

function ask_loop ::
  "string list \<Rightarrow> real \<Rightarrow> world \<Rightarrow> (py_error + (string option \<times> bool) \<times> world) option" where
  "ask_loop letters start_time w =
     (case prompt_iteration letters start_time w of
        None \<Rightarrow> None
      | Some (Inl e) \<Rightarrow> Some (Inl e)
      | Some (Inr (st, w')) \<Rightarrow>
          (case st of
             Presented \<Rightarrow> ask_loop letters start_time w'
           | Answered answer quick \<Rightarrow> Some (Inr ((Some answer, quick), w'))
           | Skipped \<Rightarrow> Some (Inr ((None, False), w'))
           | TimedOut \<Rightarrow> Some (Inr ((None, False), w'))))"
  by pat_completeness auto
termination
  by (relation "measure (\<lambda>(letters, start_time, w). length (stdin w))")
     (auto simp: prompt_iteration_def input_def time_time_def Let_def
       split: list.splits input_event.splits if_splits)

declare ask_loop.simps [simp del]

text \<open>
  \<open>ask_question\<close>: the question and its options are printed first (a missing key
  raises there), then the clock is read and the loop runs. The value is the pair the
  method returns.
\<close>

definition ask_question ::
  "question \<Rightarrow> world \<Rightarrow> (py_error + (string option \<times> bool) \<times> world) option" where
  "ask_question q w =
     (case question q of
        None \<Rightarrow> Some (Inl (KeyError ''question''))
      | Some txt \<Rightarrow>
          (case options q of
             None \<Rightarrow> Some (Inl (KeyError ''options''))
           | Some opts \<Rightarrow>
               (let (start_time, w1) = time_time w
                in ask_loop (map letter opts) start_time w1)))"

subsection \<open>Scoring\<close>

text \<open>
  \<open>check_answer\<close>: the comparison reads \<open>question['correct_answer']\<close>, the score is
  updated, then the record is built (reading \<open>question['question']\<close>) and appended.
  \<open>time.sleep\<close> changes nothing of the state.
\<close>

definition check_answer :: "string \<Rightarrow> question \<Rightarrow> game \<Rightarrow> py_error + game" where
  "check_answer user_answer q g =
     (case correct_answer q of
        None \<Rightarrow> Inl (KeyError ''correct_answer'')
      | Some ca \<Rightarrow>
          (let correct = (user_answer = ca);
               g1 = (if correct then g\<lparr>score := score g + 1\<rparr> else g)
           in case question q of
                None \<Rightarrow> Inl (KeyError ''question'')
              | Some txt \<Rightarrow>
                  Inr (g1\<lparr>user_answers := user_answers g1 @
                        [\<lparr>ar_question = txt, ar_user_answer = user_answer,
                          ar_correct_answer = ca, ar_is_correct = correct\<rparr>]\<rparr>)))"

text \<open>
  What \<open>run\<close> does with the pair that \<open>ask_question\<close> returned:
  \<open>if answer is not None: check_answer(...); if is_quick: self.score += 0.5\<close>.
\<close>

definition score_answer ::
  "string option \<Rightarrow> bool \<Rightarrow> question \<Rightarrow> game \<Rightarrow> py_error + game" where
  "score_answer answer is_quick q g =
     (case answer of
        None \<Rightarrow> Inr g
      | Some a \<Rightarrow>
          (case check_answer a q g of
             Inl e \<Rightarrow> Inl e
           | Inr g1 \<Rightarrow> Inr (if is_quick then g1\<lparr>score := score g1 + 0.5\<rparr> else g1)))"

text \<open>The body of the \<open>for\<close> loop of \<open>run\<close>, and the loop.\<close>

definition run_question ::
  "question \<Rightarrow> game \<Rightarrow> world \<Rightarrow> (py_error + game \<times> world) option" where
  "run_question q g w =
     (let g1 = g\<lparr>current_question := current_question g + 1\<rparr>
      in case ask_question q w of
           None \<Rightarrow> None
         | Some (Inl e) \<Rightarrow> Some (Inl e)
         | Some (Inr ((answer, is_quick), w1)) \<Rightarrow>
             (case score_answer answer is_quick q g1 of
                Inl e \<Rightarrow> Some (Inl e)
              | Inr g2 \<Rightarrow> Some (Inr (g2, w1))))"

fun run_loop :: "question list \<Rightarrow> game \<Rightarrow> world \<Rightarrow> (py_error + game \<times> world) option" where
  "run_loop [] g w = Some (Inr (g, w))"
| "run_loop (q # qs) g w =
     (case run_question q g w of
        None \<Rightarrow> None
      | Some (Inl e) \<Rightarrow> Some (Inl e)
      | Some (Inr (g1, w1)) \<Rightarrow> run_loop qs g1 w1)"

text \<open>
  The pairs that the successive calls of \<open>ask_question\<close> return to the loop, up to the
  first call that raises or never returns. The prompt reads nothing of the game but the
  number it prints, so the pairs depend on the questions and the world only.
\<close>

fun asked :: "question list \<Rightarrow> world \<Rightarrow> (string option \<times> bool) list" where
  "asked [] w = []"
| "asked (q # qs) w =
     (case ask_question q w of
        Some (Inr (r, w1)) \<Rightarrow> r # asked qs w1
      | _ \<Rightarrow> [])"

definition answered :: "(string option \<times> bool) list \<Rightarrow> nat" where
  "answered rs = length (filter (\<lambda>r. fst r \<noteq> None) rs)"

subsection \<open>The report\<close>

text \<open>
  The first lines of \<open>show_results\<close>. The division is exact here; Python computes it
  in binary floating point.
\<close>

definition percentage :: "game \<Rightarrow> real" where
  "percentage g =
     (let total = length (filtered_questions g)
      in if total > 0 then (score g / real total) * 100 else 0)"

text \<open>
  The four messages of \<open>show_results\<close>, in the order of the \<open>if\<close>/\<open>elif\<close> chain:
  \<open>Excellent! You're a quiz master!\<close>, \<open>Great job! You know your stuff!\<close>,
  \<open>Good effort! Keep learning!\<close>, \<open>Keep studying! You'll improve!\<close>.
\<close>

datatype feedback = Excellent | Great | Good | Keep_studying

definition performance_feedback :: "real \<Rightarrow> feedback" where
  "performance_feedback p =
     (if p \<ge> 90 then Excellent
      else if p \<ge> 70 then Great
      else if p \<ge> 50 then Good
      else Keep_studying)"

subsection \<open>Loading\<close>

text \<open>
  What \<open>open\<close> and \<open>json.load\<close> find: no file, a file that is not JSON, or a JSON
  object, of which the code reads the key \<open>questions\<close> (\<open>None\<close>: the key is absent).
\<close>

datatype file_contents = Missing | Malformed | Json "question list option"

datatype console_line = Loaded nat nat | File_not_found | Error_loading py_error

text \<open>
  Line 25, \<open>set(q['category'] for q in self.questions if 'category' in q)\<close>: the categories
  present are put into a set one after the other, and the first one that cannot be
  hashed raises \<open>TypeError\<close>.
\<close>

fun category_set :: "question list \<Rightarrow> py_error + string set" where
  "category_set [] = Inr {}"
| "category_set (q # qs) =
     (case category q of
        None \<Rightarrow> category_set qs
      | Some Unhashable \<Rightarrow> Inl TypeError
      | Some (Str s) \<Rightarrow>
          (case category_set qs of
             Inl e \<Rightarrow> Inl e
           | Inr cs \<Rightarrow> Inr (insert s cs)))"

text \<open>
  The body of the \<open>try\<close> statement of \<open>load_questions\<close>, statement by statement. An
  exception leaves the object as the statements before it have made it, so the error
  comes with the game at that point: line 24 has replaced \<open>self.questions\<close> when line 25
  raises.
\<close>

definition read_questions :: "file_contents \<Rightarrow> game \<Rightarrow> py_error \<times> game + game" where
  "read_questions f g =
     (case f of
        Missing \<Rightarrow> Inl (FileNotFoundError, g)
      | Malformed \<Rightarrow> Inl (JSONDecodeError, g)
      | Json None \<Rightarrow> Inl (KeyError ''questions'', g)
      | Json (Some qs) \<Rightarrow>
          (let g1 = g\<lparr>questions := qs\<rparr>
           in case category_set qs of
                Inl e \<Rightarrow> Inl (e, g1)
              | Inr cs \<Rightarrow> Inr (g1\<lparr>categories := cs\<rparr>)))"

text \<open>
  \<open>load_questions\<close>: both \<open>except\<close> clauses print a line and return normally, so the
  result is the game together with the line printed. The sum type is kept so that an
  exception reaching the caller could be told from a normal return.
\<close>

definition load_questions :: "file_contents \<Rightarrow> game \<Rightarrow> py_error + game \<times> console_line" where
  "load_questions f g =
     (case read_questions f g of
        Inr g1 \<Rightarrow> Inr (g1, Loaded (length (questions g1)) (card (categories g1)))
      | Inl (FileNotFoundError, g1) \<Rightarrow> Inr (g1, File_not_found)
      | Inl (e, g1) \<Rightarrow> Inr (g1, Error_loading e))"

subsection \<open>The sample data of the file\<close>

text \<open>
  The three questions of \<open>sample_data\<close>, which the module writes to \<open>questions.json\<close>
  (the quotation marks inside the question texts are left out).
\<close>

definition sample1 :: question where
  "sample1 = \<lparr>question = Some ''What is the output of print(3 * 7) in Python?'',
     options = Some [\<lparr>letter = ''A'', opt_text = ''21''\<rparr>, \<lparr>letter = ''B'', opt_text = ''777''\<rparr>,
       \<lparr>letter = ''C'', opt_text = ''TypeError''\<rparr>, \<lparr>letter = ''D'', opt_text = ''37''\<rparr>],
     correct_answer = Some ''B'', category = Some (Str ''Python Basics''),
     difficulty = Some ''Easy''\<rparr>"

definition sample2 :: question where
  "sample2 = \<lparr>question = Some ''Which of these is NOT a Python built-in data structure?'',
     options = Some [\<lparr>letter = ''A'', opt_text = ''list''\<rparr>, \<lparr>letter = ''B'', opt_text = ''tuple''\<rparr>,
       \<lparr>letter = ''C'', opt_text = ''array''\<rparr>, \<lparr>letter = ''D'', opt_text = ''dictionary''\<rparr>],
     correct_answer = Some ''C'', category = Some (Str ''Python Basics''),
     difficulty = Some ''Easy''\<rparr>"

definition sample3 :: question where
  "sample3 = \<lparr>question = Some ''What does the zip() function do in Python?'',
     options = Some [\<lparr>letter = ''A'', opt_text = ''Compresses files''\<rparr>,
       \<lparr>letter = ''B'', opt_text = ''Combines iterables element-wise''\<rparr>,
       \<lparr>letter = ''C'', opt_text = ''Creates a backup of data''\<rparr>,
       \<lparr>letter = ''D'', opt_text = ''Encrypts strings''\<rparr>],
     correct_answer = Some ''B'', category = Some (Str ''Python Functions''),
     difficulty = Some ''Medium''\<rparr>"

definition sample_questions :: "question list" where
  "sample_questions = [sample1, sample2, sample3]"

lemmas sample_defs = sample_questions_def sample1_def sample2_def sample3_def

text \<open>A bank of eleven questions, none of them of difficulty \<open>Hard\<close>.\<close>

definition bank11 :: "question list" where
  "bank11 = replicate 4 sample1 @ replicate 4 sample2 @ replicate 3 sample3"

text \<open>
  The specification's well-formed question record (sections 3, 4.1 and 7): the required
  fields are present, the option letters are unique and the category, when there is
  one, is a string. It is the specification's predicate, the code has no counterpart of
  it.
\<close>

definition spec_well_formed :: "question \<Rightarrow> bool" where
  "spec_well_formed q =
     (question q \<noteq> None \<and> correct_answer q \<noteq> None \<and> category q \<noteq> Some Unhashable \<and>
      (case options q of None \<Rightarrow> False | Some opts \<Rightarrow> distinct (map letter opts)))"

text \<open>A record with two options of the same letter and no correct answer.\<close>

definition malformed_question :: question where
  "malformed_question = \<lparr>question = Some ''Which one?'',
     options = Some [\<lparr>letter = ''A'', opt_text = ''this''\<rparr>, \<lparr>letter = ''A'', opt_text = ''that''\<rparr>],
     correct_answer = None, category = None, difficulty = None\<rparr>"

text \<open>A record whose category is a JSON array, as in \<open>"category": ["a"]\<close>.\<close>

definition unhashable_question :: question where
  "unhashable_question = sample2\<lparr>category := Some Unhashable\<rparr>"

text \<open>A question whose option letters are stored in lower case.\<close>

definition lowercase_question :: question where
  "lowercase_question = \<lparr>question = Some ''Which one?'',
     options = Some [\<lparr>letter = ''a'', opt_text = ''this''\<rparr>, \<lparr>letter = ''b'', opt_text = ''that''\<rparr>],
     correct_answer = Some ''b'', category = None, difficulty = None\<rparr>"

lemmas upper_defs = upper_def upper_char_def ascii_lowercase_def ascii_uppercase_def

lemmas prompt_defs = ask_question_def ask_loop.simps prompt_iteration_def input_def
  time_time_def Let_def

text \<open>
  Two scripted sessions on the sample questions. In the first the user answers the first
  question in four seconds, skips the second, and is late on the third; in the second
  every answer is right and comes within two seconds.
\<close>

definition session_world :: world where
  "session_world = \<lparr>stdin = [Line ''b'', Line ''s'', Line ''x'', Line ''a''],
     clock = (\<lambda>n. if n < 6 then 2 * real n else 100), ticks = 0\<rparr>"

definition quick_world :: world where
  "quick_world = \<lparr>stdin = [Line ''b'', Line ''c'', Line ''b''],
     clock = (\<lambda>n. real n), ticks = 0\<rparr>"

lemmas run_defs = run_question_def score_answer_def check_answer_def

subsection \<open>Lemmas on the selection\<close>

lemma mset_shuffle_from:
  "i < length xs \<Longrightarrow> mset (shuffle_from rnd i xs) = mset xs"
proof (induction i arbitrary: xs)
  case 0
  then show ?case by simp
next
  case (Suc i)
  let ?j = "rnd (Suc i) mod (Suc (Suc i))"
  have j: "?j < length xs" using Suc.prems
    by (meson Suc_leI le_trans less_Suc_eq_le mod_less_divisor not_less zero_less_Suc)
  have "mset (xs[Suc i := xs ! ?j, ?j := xs ! Suc i]) = mset xs"
    using Suc.prems j by (simp add: mset_swap)
  moreover have "i < length (xs[Suc i := xs ! ?j, ?j := xs ! Suc i])"
    using Suc.prems by simp
  ultimately show ?case using Suc.IH by (simp add: Let_def)
qed

lemma mset_shuffle: "mset (shuffle rnd xs) = mset xs"
proof (cases xs)
  case Nil
  then show ?thesis by (simp add: shuffle_def)
next
  case (Cons x ys)
  then show ?thesis by (simp add: shuffle_def mset_shuffle_from)
qed

lemma set_shuffle: "set (shuffle rnd xs) = set xs"
  using mset_shuffle [of rnd xs] by (metis set_mset_mset)

lemma length_shuffle: "length (shuffle rnd xs) = length xs"
  using mset_shuffle [of rnd xs] by (metis size_mset)

lemma kept_iff:
  "kept c d q =
     ((c = None \<or> c = Some [] \<or> category q = map_option Str c)
      \<and> (d = None \<or> d = Some [] \<or> difficulty q = d))"
  by (auto simp: kept_def truthy_def split: option.splits)

text \<open>
  When some question passes the filter, the result holds at most ten questions, each of
  which passed the filter, and as many as passed up to ten.
\<close>

lemma filter_questions_selected:
  assumes "filter (kept (selected_category g) (selected_difficulty g)) (questions g) \<noteq> []"
  shows "length (filter_questions rnd g) \<le> 10
       \<and> set (filter_questions rnd g) \<subseteq>
           {q \<in> set (questions g). kept (selected_category g) (selected_difficulty g) q}
       \<and> length (filter_questions rnd g) =
           min 10 (length (filter (kept (selected_category g) (selected_difficulty g)) (questions g)))"
proof -
  let ?f = "filter (kept (selected_category g) (selected_difficulty g)) (questions g)"
  have eq: "filter_questions rnd g = take 10 (shuffle rnd ?f)"
    using assms by (simp add: filter_questions_def Let_def)
  have "set (take 10 (shuffle rnd ?f)) \<subseteq> set (shuffle rnd ?f)"
    by (rule set_take_subset)
  then have "set (filter_questions rnd g) \<subseteq> set ?f"
    by (simp add: eq set_shuffle)
  then show ?thesis
    by (auto simp: eq length_shuffle)
qed

subsection \<open>Lemmas on loading\<close>

lemma category_set_hashable:
  "\<forall>q\<in>set qs. category q \<noteq> Some Unhashable \<Longrightarrow>
     category_set qs = Inr {s. \<exists>q\<in>set qs. category q = Some (Str s)}"
proof (induction qs)
  case Nil
  then show ?case by simp
next
  case (Cons q qs)
  then have ih: "category_set qs = Inr {s. \<exists>q\<in>set qs. category q = Some (Str s)}"
    by simp
  show ?case
  proof (cases "category q")
    case None
    with ih show ?thesis by simp
  next
    case (Some v)
    with Cons.prems obtain s where v: "v = Str s"
      by (cases v) auto
    with Some ih show ?thesis by auto
  qed
qed

lemma category_set_unhashable:
  "\<exists>q\<in>set qs. category q = Some Unhashable \<Longrightarrow> category_set qs = Inl TypeError"
proof (induction qs)
  case Nil
  then show ?case by simp
next
  case (Cons q qs)
  show ?case
  proof (cases "category q = Some Unhashable")
    case True
    then show ?thesis by simp
  next
    case False
    with Cons have "category_set qs = Inl TypeError" by auto
    then show ?thesis
      by (simp split: option.splits category_value.splits)
  qed
qed

subsection \<open>Lemmas on the prompt and the loop\<close>

text \<open>
  For a question that carries its text and its options, \<open>ask_question\<close> is the loop
  started at the reading of the clock taken when the question is presented.
\<close>

lemma ask_question_loop:
  assumes "question q = Some qt" and "options q = Some opts"
  shows "ask_question q w =
           ask_loop (map letter opts) (clock w (ticks w)) (w\<lparr>ticks := Suc (ticks w)\<rparr>)"
  using assms by (simp add: ask_question_def time_time_def)

text \<open>The prompt never reports a quick answer without an answer.\<close>

lemma ask_loop_None_False:
  "ask_loop letters start_time w = Some (Inr ((None, b), w')) \<Longrightarrow> \<not> b"
proof (induction letters start_time w rule: ask_loop.induct)
  case (1 letters start_time w)
  show ?case
  proof (cases "prompt_iteration letters start_time w")
    case None
    with "1.prems" show ?thesis by (simp add: ask_loop.simps)
  next
    case (Some r)
    show ?thesis
    proof (cases r)
      case (Inl e)
      with Some "1.prems" show ?thesis by (simp add: ask_loop.simps)
    next
      case (Inr p)
      obtain st w1 where p: "p = (st, w1)" by (cases p)
      show ?thesis
      proof (cases st)
        case Presented
        with Some Inr p "1.prems" have "ask_loop letters start_time w1 = Some (Inr ((None, b), w'))"
          by (simp add: ask_loop.simps [of letters start_time w])
        with "1.IH" [of "Inr (Presented, w1)" "(Presented, w1)" Presented w1]
          Some Inr p Presented show ?thesis by simp
      qed (use Some Inr p "1.prems" in \<open>simp_all add: ask_loop.simps [of letters start_time w]\<close>)
    qed
  qed
qed

lemma ask_question_result:
  assumes "ask_question q w = Some (Inr ((r, b), w'))"
  shows "question q \<noteq> None \<and> options q \<noteq> None \<and> (r = None \<longrightarrow> \<not> b)"
  using assms
  by (auto simp: ask_question_def time_time_def Let_def split: option.splits
      dest: ask_loop_None_False)

text \<open>What one question changes in the game.\<close>

lemma score_answer_effect:
  assumes "score_answer r b q g = Inr g'"
  shows "current_question g' = current_question g
       \<and> filtered_questions g' = filtered_questions g
       \<and> score g \<le> score g'
       \<and> length (user_answers g') = length (user_answers g) + (if r = None then 0 else 1)
       \<and> (r = None \<longrightarrow> g' = g)"
  using assms
  by (auto simp: score_answer_def check_answer_def Let_def
      split: option.splits sum.splits if_splits)

lemma run_question_effect:
  assumes "run_question q g w = Some (Inr (g', w'))"
  shows "\<exists>r b. ask_question q w = Some (Inr ((r, b), w'))
       \<and> current_question g' = Suc (current_question g)
       \<and> filtered_questions g' = filtered_questions g
       \<and> score g \<le> score g'
       \<and> length (user_answers g') = length (user_answers g) + (if r = None then 0 else 1)
       \<and> (r = None \<longrightarrow> g' = g\<lparr>current_question := Suc (current_question g)\<rparr>)"
proof -
  from assms obtain r b g2 where
    a: "ask_question q w = Some (Inr ((r, b), w'))" and
    s: "score_answer r b q (g\<lparr>current_question := current_question g + 1\<rparr>) = Inr g2" and
    g: "g' = g2"
    by (auto simp: run_question_def Let_def split: option.splits sum.splits prod.splits)
  from score_answer_effect [OF s] a g show ?thesis by auto
qed

lemma run_loop_effect:
  "run_loop qs g w = Some (Inr (g', w')) \<Longrightarrow>
     current_question g' = current_question g + length qs
   \<and> filtered_questions g' = filtered_questions g
   \<and> score g \<le> score g'
   \<and> length (user_answers g') = length (user_answers g) + answered (asked qs w)"
proof (induction qs arbitrary: g w)
  case Nil
  then show ?case by (simp add: answered_def)
next
  case (Cons q qs)
  from Cons.prems obtain g1 w1 where
    q: "run_question q g w = Some (Inr (g1, w1))" and
    l: "run_loop qs g1 w1 = Some (Inr (g', w'))"
    by (auto split: option.splits sum.splits prod.splits)
  from run_question_effect [OF q] obtain r b where
    a: "ask_question q w = Some (Inr ((r, b), w1))" and
    e: "current_question g1 = Suc (current_question g)"
       "filtered_questions g1 = filtered_questions g"
       "score g \<le> score g1"
       "length (user_answers g1) = length (user_answers g) + (if r = None then 0 else 1)"
    by blast
  from Cons.IH [OF l] e a show ?case
    by (simp add: answered_def)
qed

text \<open>
  The loop over a list goes through the state that the loop over any front part of the
  list ends in: the states after the first \<open>k\<close> questions of a session are the final
  states of the loops over the first \<open>k\<close> questions.
\<close>

lemma run_loop_append:
  "run_loop (xs @ ys) g w =
     (case run_loop xs g w of
        None \<Rightarrow> None
      | Some (Inl e) \<Rightarrow> Some (Inl e)
      | Some (Inr (g1, w1)) \<Rightarrow> run_loop ys g1 w1)"
  by (induction xs arbitrary: g w) (auto split: option.splits sum.splits prod.splits)

text \<open>A run in which every answer is right and quick earns one point and a half each time.\<close>

lemma quick_perfect_loop:
  assumes "asked qs w = map (\<lambda>q. (correct_answer q, True)) qs"
  shows "\<exists>g' w'. run_loop qs g w = Some (Inr (g', w'))
           \<and> score g' = score g + 1.5 * real (length qs)
           \<and> filtered_questions g' = filtered_questions g"
  using assms
proof (induction qs arbitrary: g w)
  case Nil
  then show ?case by simp
next
  case (Cons q qs)
  from Cons.prems obtain w1 where
    a: "ask_question q w = Some (Inr ((correct_answer q, True), w1))" and
    r: "asked qs w1 = map (\<lambda>q. (correct_answer q, True)) qs"
    by (auto split: option.splits sum.splits prod.splits)
  from ask_question_result [OF a] obtain ca qt where
    k: "correct_answer q = Some ca" "question q = Some qt"
    by auto
  let ?g1 = "g\<lparr>current_question := current_question g + 1\<rparr>"
  obtain g2 where
    s: "score_answer (Some ca) True q ?g1 = Inr g2" and
    g2: "score g2 = score g + 1.5" "filtered_questions g2 = filtered_questions g"
    using k by (simp add: score_answer_def check_answer_def Let_def)
  have q: "run_question q g w = Some (Inr (g2, w1))"
    using a k s by (simp add: run_question_def Let_def)
  from Cons.IH [OF r, of g2] obtain g' w' where
    "run_loop qs g2 w1 = Some (Inr (g', w'))"
    "score g' = score g2 + 1.5 * real (length qs)"
    "filtered_questions g' = filtered_questions g2"
    by blast
  with q g2 show ?case by (simp add: algebra_simps)
qed

section \<open>The report\<close>

text \<open>
  Claim C6. The percentage shown by \<open>show_results\<close> is the score divided by the number
  of questions of the session, times 100, and it is 0 when the session has no question;
  the message is chosen by the thresholds 90, 70 and 50 read from the top, each one
  included in the upper tier: 89.9 gives the second message, 90 the first, 49.9 the
  last (\<open>Keep studying!\<close>, the tier the specification calls \<open>Needs improvement\<close>).
\<close>

theorem report_percentage_and_tier:
  "percentage g =
     (if length (filtered_questions g) = 0 then 0
      else score g / real (length (filtered_questions g)) * 100)
   \<and> (performance_feedback p = Excellent) = (90 \<le> p)
   \<and> (performance_feedback p = Great) = (70 \<le> p \<and> p < 90)
   \<and> (performance_feedback p = Good) = (50 \<le> p \<and> p < 70)
   \<and> (performance_feedback p = Keep_studying) = (p < 50)
   \<and> performance_feedback 89.9 = Great
   \<and> performance_feedback 90 = Excellent
   \<and> performance_feedback 49.9 = Keep_studying"
  by (simp add: percentage_def performance_feedback_def Let_def)

theorem report_percentage_and_tier_witness:
  "percentage (init\<lparr>score := 7, filtered_questions := replicate 10 sample1\<rparr>) = 70
   \<and> percentage init = 0
   \<and> performance_feedback 70 = Great"
  using report_percentage_and_tier
    [of "init\<lparr>score := 7, filtered_questions := replicate 10 sample1\<rparr>" 70]
    report_percentage_and_tier [of init 70]
  by (simp add: init_def)

section \<open>Scoring an answer\<close>

text \<open>
  Claim C5. For a question that carries its text and its correct answer and has been
  answered with the letter \<open>a\<close>, \<open>check_answer\<close> records
  \<open>is_correct = (a = correct_answer)\<close> and adds 1 to the score exactly when the answer
  is correct; the branch of \<open>run\<close> then adds 0.5 exactly when the prompt reported a quick
  answer, whether the answer is correct or not, and nothing otherwise.
\<close>

theorem scorer_correctness_and_bonus:
  assumes "correct_answer q = Some ca" and "question q = Some txt"
  shows "check_answer a q g =
           Inr (g\<lparr>score := score g + (if a = ca then 1 else 0),
                  user_answers := user_answers g @
                    [\<lparr>ar_question = txt, ar_user_answer = a, ar_correct_answer = ca,
                      ar_is_correct = (a = ca)\<rparr>]\<rparr>)
       \<and> score_answer (Some a) quick q g =
           Inr (g\<lparr>score := score g + (if a = ca then 1 else 0) + (if quick then 0.5 else 0),
                  user_answers := user_answers g @
                    [\<lparr>ar_question = txt, ar_user_answer = a, ar_correct_answer = ca,
                      ar_is_correct = (a = ca)\<rparr>]\<rparr>)"
  using assms by (simp add: check_answer_def score_answer_def Let_def)

theorem scorer_correctness_and_bonus_witness:
  "score (projr (score_answer (Some ''A'') True sample1 init)) = 0.5
   \<and> score (projr (score_answer (Some ''B'') True sample1 init)) = 1.5
   \<and> score (projr (score_answer (Some ''B'') False sample1 init)) = 1
   \<and> score (projr (score_answer (Some ''A'') False sample1 init)) = 0
   \<and> map ar_is_correct (user_answers (projr (check_answer ''A'' sample1 init))) = [False]
   \<and> map ar_is_correct (user_answers (projr (check_answer ''B'' sample1 init))) = [True]"
proof -
  have ca: "correct_answer sample1 = Some ''B''"
    by (simp add: sample1_def)
  have qt: "question sample1 = Some ''What is the output of print(3 * 7) in Python?''"
    by (simp add: sample1_def)
  note t = scorer_correctness_and_bonus [OF ca qt]
  show ?thesis
    using t [of "''A''" init True] t [of "''B''" init True]
      t [of "''B''" init False] t [of "''A''" init False]
    by (simp add: init_def)
qed

section \<open>Selecting the questions of a session\<close>

text \<open>
  Claim C1 says that the fallback to the whole bank is shuffled and cut to ten questions
  like a non-empty selection. In the code the fallback branch returns \<open>self.questions\<close>
  at once: when no question passes the filter, the result is the bank itself, in its
  own order and with all its questions, whatever the random source. A bank of eleven
  questions comes back with its eleven questions.
\<close>

theorem fallback_returns_whole_bank:
  assumes "filter (kept (selected_category g) (selected_difficulty g)) (questions g) = []"
  shows "filter_questions rnd g = questions g"
  using assms by (simp add: filter_questions_def)

theorem fallback_returns_whole_bank_witness:
  "filter (kept None (Some ''Hard'')) bank11 = []
   \<and> filter_questions (\<lambda>i. 0) (init\<lparr>questions := bank11, selected_difficulty := Some ''Hard''\<rparr>)
       = bank11
   \<and> length (filter_questions (\<lambda>i. 0)
        (init\<lparr>questions := bank11, selected_difficulty := Some ''Hard''\<rparr>)) = 11"
proof -
  let ?g = "init\<lparr>questions := bank11, selected_difficulty := Some ''Hard''\<rparr>"
  have e: "filter (kept None (Some ''Hard'')) bank11 = []"
    by (simp add: bank11_def kept_def truthy_def sample_defs)
  have "filter (kept (selected_category ?g) (selected_difficulty ?g)) (questions ?g) = []"
    using e by (simp add: init_def)
  from fallback_returns_whole_bank [OF this, of "\<lambda>i. 0"] e
  show ?thesis by (simp add: bank11_def)
qed

text \<open>
  Claim C7 says that a question is retained exactly when the category is \<open>None\<close> or
  matches, and the difficulty is \<open>None\<close> or matches. The code tests the truth value
  of the selection, so the empty string, a category that a bank can hold and the menu
  can select, filters nothing: with the category \<open>''\<close> selected, a question of the
  category \<open>Python Basics\<close> is retained and returned.
\<close>

theorem empty_category_keeps_every_question:
  "kept (Some '''') d q = kept None d q
   \<and> set (filter_questions rnd
        (init\<lparr>questions := [sample1, sample3\<lparr>category := Some (Str '''')\<rparr>],
              selected_category := Some ''''\<rparr>)) =
       {sample1, sample3\<lparr>category := Some (Str '''')\<rparr>}
   \<and> category sample1 = Some (Str ''Python Basics'')"
proof -
  have "filter (kept (Some '''') None) [sample1, sample3\<lparr>category := Some (Str '''')\<rparr>]
          = [sample1, sample3\<lparr>category := Some (Str '''')\<rparr>]"
    by (simp add: kept_def truthy_def)
  then have "filter_questions rnd
        (init\<lparr>questions := [sample1, sample3\<lparr>category := Some (Str '''')\<rparr>],
              selected_category := Some ''''\<rparr>)
      = take 10 (shuffle rnd [sample1, sample3\<lparr>category := Some (Str '''')\<rparr>])"
    by (simp add: filter_questions_def init_def)
  moreover have "length (shuffle rnd [sample1, sample3\<lparr>category := Some (Str '''')\<rparr>]) = 2"
    by (simp add: length_shuffle)
  ultimately show ?thesis
    by (simp add: set_shuffle kept_def truthy_def sample1_def)
qed

section \<open>Loading the questions\<close>

text \<open>
  Claim C2 says that loading fails with \<open>FormatError\<close> on a record that is not well
  formed, and that the error reaches the caller. The code has no such error and checks
  nothing: a record with a missing field and a repeated option letter is stored as it
  is, and a file that cannot be read only prints a line.
\<close>

theorem load_accepts_malformed_counterexample:
  "\<not> spec_well_formed malformed_question
   \<and> load_questions (Json (Some [malformed_question])) init =
       Inr (init\<lparr>questions := [malformed_question]\<rparr>, Loaded 1 0)
   \<and> load_questions Malformed init = Inr (init, Error_loading JSONDecodeError)"
  by (simp add: spec_well_formed_def malformed_question_def load_questions_def
      read_questions_def init_def)

text \<open>
  Claim C2 as amended: \<open>load_questions\<close> never raises, and it checks no record. Given a
  list of question objects under the key \<open>questions\<close> it stores the list as it is. When
  every category present is a string it then derives the set of the categories and
  prints the two counts. When some category cannot be hashed, deriving the set raises
  \<open>TypeError\<close> after the list has been stored: the error is caught and printed, the
  questions are the new ones and the categories are left as they were. A missing file,
  a file that is not JSON and an object without the key leave the game as it was and
  print a line.
\<close>

theorem load_questions_never_raises:
  "(\<exists>g' out. load_questions f g = Inr (g', out))
   \<and> ((\<forall>q\<in>set qs. category q \<noteq> Some Unhashable) \<longrightarrow>
        load_questions (Json (Some qs)) g =
          Inr (g\<lparr>questions := qs,
                 categories := {s. \<exists>q\<in>set qs. category q = Some (Str s)}\<rparr>,
               Loaded (length qs) (card {s. \<exists>q\<in>set qs. category q = Some (Str s)})))
   \<and> ((\<exists>q\<in>set qs. category q = Some Unhashable) \<longrightarrow>
        load_questions (Json (Some qs)) g = Inr (g\<lparr>questions := qs\<rparr>, Error_loading TypeError))
   \<and> load_questions Missing g = Inr (g, File_not_found)
   \<and> load_questions Malformed g = Inr (g, Error_loading JSONDecodeError)
   \<and> load_questions (Json None) g = Inr (g, Error_loading (KeyError ''questions''))"
proof -
  have "\<exists>g' out. load_questions f g = Inr (g', out)"
    by (simp add: load_questions_def read_questions_def Let_def
        split: file_contents.splits option.splits sum.splits py_error.splits prod.splits)
  moreover have "load_questions (Json (Some qs)) g =
      Inr (g\<lparr>questions := qs, categories := {s. \<exists>q\<in>set qs. category q = Some (Str s)}\<rparr>,
           Loaded (length qs) (card {s. \<exists>q\<in>set qs. category q = Some (Str s)}))"
    if "\<forall>q\<in>set qs. category q \<noteq> Some Unhashable"
    using category_set_hashable [OF that]
    by (simp add: load_questions_def read_questions_def)
  moreover have "load_questions (Json (Some qs)) g =
      Inr (g\<lparr>questions := qs\<rparr>, Error_loading TypeError)"
    if "\<exists>q\<in>set qs. category q = Some Unhashable"
    using category_set_unhashable [OF that]
    by (simp add: load_questions_def read_questions_def)
  moreover have "load_questions Missing g = Inr (g, File_not_found)"
    "load_questions Malformed g = Inr (g, Error_loading JSONDecodeError)"
    "load_questions (Json None) g = Inr (g, Error_loading (KeyError ''questions''))"
    by (simp_all add: load_questions_def read_questions_def)
  ultimately show ?thesis by blast
qed

theorem load_questions_never_raises_witness:
  "list_all (\<lambda>q. category q \<noteq> Some Unhashable) sample_questions
   \<and> load_questions (Json (Some sample_questions)) init =
       Inr (init\<lparr>questions := sample_questions,
                   categories := {''Python Basics'', ''Python Functions''}\<rparr>,
            Loaded 3 2)
   \<and> list_ex (\<lambda>q. category q = Some Unhashable) [sample1, unhashable_question]
   \<and> load_questions (Json (Some [sample1, unhashable_question]))
        (init\<lparr>categories := {''Old''}\<rparr>) =
       Inr (init\<lparr>categories := {''Old''}, questions := [sample1, unhashable_question]\<rparr>,
            Error_loading TypeError)"
proof -
  have h1: "\<forall>q\<in>set sample_questions. category q \<noteq> Some Unhashable"
    by (simp add: sample_defs)
  have h2: "\<exists>q\<in>set [sample1, unhashable_question]. category q = Some Unhashable"
    by (simp add: unhashable_question_def)
  have c: "{s. \<exists>q\<in>set sample_questions. category q = Some (Str s)} =
      {''Python Basics'', ''Python Functions''}"
    by (auto simp: sample_defs)
  have n: "card {''Python Basics'', ''Python Functions''} = 2" "length sample_questions = 3"
    by (simp_all add: sample_questions_def)
  from load_questions_never_raises [of "Json None" init sample_questions] h1
  have a: "load_questions (Json (Some sample_questions)) init =
      Inr (init\<lparr>questions := sample_questions,
                  categories := {''Python Basics'', ''Python Functions''}\<rparr>, Loaded 3 2)"
    unfolding c n by blast
  from load_questions_never_raises
    [of "Json None" "init\<lparr>categories := {''Old''}\<rparr>" "[sample1, unhashable_question]"] h2
  have b: "load_questions (Json (Some [sample1, unhashable_question]))
        (init\<lparr>categories := {''Old''}\<rparr>) =
      Inr (init\<lparr>categories := {''Old''}, questions := [sample1, unhashable_question]\<rparr>,
           Error_loading TypeError)"
    by blast
  from a b h1 h2 show ?thesis
    by (simp add: list_all_iff list_ex_iff)
qed

section \<open>The timed prompt\<close>

text \<open>
  Claim C3 says that the prompt times out when the clock stands at exactly 10 seconds.
  The code tests \<open>time.time() - start_time > 10\<close>: at exactly 10 seconds an invalid line
  leaves the prompt open, and a valid letter typed then is still an answer.
\<close>

theorem timeout_at_exactly_ten_counterexample:
  "map_option (map_sum id fst)
     (prompt_iteration [''A'', ''B'', ''C'', ''D''] 0
        \<lparr>stdin = [Line ''x''], clock = (\<lambda>n. 10), ticks = 1\<rparr>) = Some (Inr Presented)
   \<and> map_option (map_sum id fst)
       (ask_question sample1
          \<lparr>stdin = [Line ''x'', Line ''b''], clock = (\<lambda>n. if n = 0 then 0 else 10), ticks = 0\<rparr>)
       = Some (Inr (Some ''B'', False))"
  by (simp add: prompt_defs upper_defs sample1_def)

text \<open>
  Claim C3 as amended: when a line arrives, the prompt ends in the state \<open>TimedOut\<close>
  exactly when the clock read after the line is more than 10 seconds past the
  presentation; the method then returns \<open>(None, False)\<close>, whatever the line. The
  statement is about any pass of the loop, \<open>start_time\<close> being the reading of the clock
  at the presentation (lemma \<open>ask_question_loop\<close>).
\<close>

theorem timed_out_only_after_ten:
  assumes "input w = Some (Inr (line, w1))"
  shows "(\<exists>w'. prompt_iteration letters start_time w = Some (Inr (TimedOut, w')))
           = (clock w1 (ticks w1) - start_time > 10)
       \<and> (clock w1 (ticks w1) - start_time > 10 \<longrightarrow>
            ask_loop letters start_time w =
              Some (Inr ((None, False), w1\<lparr>ticks := Suc (ticks w1)\<rparr>)))"
  using assms by (simp add: prompt_iteration_def time_time_def Let_def ask_loop.simps)

theorem timed_out_only_after_ten_witness:
  "ask_loop [''A'', ''B'', ''C'', ''D''] 0 \<lparr>stdin = [Line ''b''], clock = (\<lambda>n. 10.5), ticks = 1\<rparr>
     = Some (Inr ((None, False), \<lparr>stdin = [], clock = (\<lambda>n. 10.5), ticks = 2\<rparr>))
   \<and> (\<exists>w'. prompt_iteration [''A'', ''B'', ''C'', ''D''] 0
          \<lparr>stdin = [Line ''b''], clock = (\<lambda>n. 10.5), ticks = 1\<rparr> = Some (Inr (TimedOut, w')))"
  using timed_out_only_after_ten
    [of "\<lparr>stdin = [Line ''b''], clock = (\<lambda>n. 10.5), ticks = 1\<rparr>" "''b''"
        "\<lparr>stdin = [], clock = (\<lambda>n. 10.5), ticks = 1\<rparr>" "[''A'', ''B'', ''C'', ''D'']" 0]
  by (simp add: input_def)

text \<open>
  Claim C4 says that every line matching an option letter case-insensitively is an
  answer. The code capitalises the line and compares it with the letters as stored,
  after the skip test: a letter stored in lower case is never matched, and the letter
  \<open>S\<close> is taken as the skip.
\<close>

theorem lowercase_or_s_letter_counterexample:
  "map_option (map_sum id fst)
     (prompt_iteration [''a'', ''b''] 0 \<lparr>stdin = [Line ''b''], clock = (\<lambda>n. 1), ticks = 1\<rparr>)
     = Some (Inr Presented)
   \<and> map_option (map_sum id fst)
     (prompt_iteration [''R'', ''S''] 0 \<lparr>stdin = [Line ''s''], clock = (\<lambda>n. 1), ticks = 1\<rparr>)
     = Some (Inr Skipped)
   \<and> map_option (map_sum id fst)
     (ask_question lowercase_question
        \<lparr>stdin = [Line ''b'', Line ''B'', Line ''a''], clock = (\<lambda>n. real n), ticks = 0\<rparr>) = None"
  by (simp add: prompt_defs upper_defs lowercase_question_def)

text \<open>
  Claim C4 as amended: a line whose capitalised form is one of the option letters as
  stored and is not \<open>S\<close>, arriving when the clock is at most 10 seconds past the
  presentation, ends the prompt in the state \<open>Answered\<close> with the capitalised line, and
  \<open>quick\<close> tells whether the next reading of the clock is less than 5 seconds past the
  presentation: 4.9 seconds is quick, 5 seconds is not. As before the statement is
  about any pass of the loop of \<open>ask_question\<close>.
\<close>

theorem valid_letter_is_answered:
  assumes "input w = Some (Inr (line, w1))"
    and "upper line \<in> set letters" and "upper line \<noteq> ''S''"
    and "clock w1 (ticks w1) - start_time \<le> 10"
  shows "prompt_iteration letters start_time w =
           Some (Inr (Answered (upper line) (clock w1 (Suc (ticks w1)) - start_time < 5),
                      w1\<lparr>ticks := Suc (Suc (ticks w1))\<rparr>))
       \<and> ask_loop letters start_time w =
           Some (Inr ((Some (upper line), clock w1 (Suc (ticks w1)) - start_time < 5),
                      w1\<lparr>ticks := Suc (Suc (ticks w1))\<rparr>))"
  using assms by (simp add: prompt_iteration_def time_time_def Let_def ask_loop.simps)

theorem valid_letter_is_answered_witness:
  "ask_loop [''A'', ''B'', ''C'', ''D''] 0 \<lparr>stdin = [Line ''b''], clock = (\<lambda>n. 4.9), ticks = 1\<rparr>
     = Some (Inr ((Some ''B'', True), \<lparr>stdin = [], clock = (\<lambda>n. 4.9), ticks = 3\<rparr>))
   \<and> ask_loop [''A'', ''B'', ''C'', ''D''] 0 \<lparr>stdin = [Line ''b''], clock = (\<lambda>n. 5), ticks = 1\<rparr>
     = Some (Inr ((Some ''B'', False), \<lparr>stdin = [], clock = (\<lambda>n. 5), ticks = 3\<rparr>))"
  using valid_letter_is_answered
    [of "\<lparr>stdin = [Line ''b''], clock = (\<lambda>n. 4.9), ticks = 1\<rparr>" "''b''"
        "\<lparr>stdin = [], clock = (\<lambda>n. 4.9), ticks = 1\<rparr>" "[''A'', ''B'', ''C'', ''D'']" 0]
    valid_letter_is_answered
    [of "\<lparr>stdin = [Line ''b''], clock = (\<lambda>n. 5), ticks = 1\<rparr>" "''b''"
        "\<lparr>stdin = [], clock = (\<lambda>n. 5), ticks = 1\<rparr>" "[''A'', ''B'', ''C'', ''D'']" 0]
  by (simp add: input_def upper_defs)

text \<open>
  Claim C9 asks that the deadline be checked even when no line ever arrives. In the code
  the check follows \<open>input()\<close>, a read with no timeout: when nobody types, the call of
  \<open>ask_question\<close> never returns, however far the clock runs.
\<close>

theorem no_input_never_returns:
  assumes "question q \<noteq> None" and "options q \<noteq> None" and "stdin w = []"
  shows "ask_question q w = None"
  using assms by (auto simp: prompt_defs)

theorem no_input_never_returns_witness:
  "ask_question sample1 \<lparr>stdin = [], clock = (\<lambda>n. 1000 * real n), ticks = 0\<rparr> = None"
  using no_input_never_returns [of sample1 "\<lparr>stdin = [], clock = (\<lambda>n. 1000 * real n), ticks = 0\<rparr>"]
  by (simp add: sample1_def)

section \<open>The session\<close>

text \<open>
  Claim C8. Take a game whose counter, score and log are those of a new \<open>QuizGame\<close>, and
  the state \<open>gk\<close> that the loop of \<open>run\<close> has reached after the questions \<open>past\<close>, with
  the questions \<open>rest\<close> still to come. The counter is the number of questions gone
  through, at most the length of the session; the score is not negative; the log holds
  one record for each question that was answered. The next question, whichever it is,
  moves the counter one up and never lowers the score; when the prompt returns no
  answer (a skip or a timeout) the score and the log stay as they are, otherwise the
  log grows by one record.
\<close>

theorem session_invariants:
  assumes "current_question g = 0" and "score g = 0" and "user_answers g = []"
    and "run_loop past g w = Some (Inr (gk, wk))"
  shows "current_question gk = length past
       \<and> current_question gk \<le> length (past @ rest)
       \<and> 0 \<le> score gk
       \<and> length (user_answers gk) = answered (asked past w)
       \<and> (\<forall>q g' w'. run_question q gk wk = Some (Inr (g', w')) \<longrightarrow>
            score gk \<le> score g'
            \<and> current_question g' = Suc (current_question gk)
            \<and> (case ask_question q wk of
                  Some (Inr ((None, quick), w1)) \<Rightarrow>
                    score g' = score gk \<and> user_answers g' = user_answers gk
                | _ \<Rightarrow> length (user_answers g') = Suc (length (user_answers gk))))"
proof -
  from run_loop_effect [OF assms(4)] assms(1-3)
  have a: "current_question gk = length past" "0 \<le> score gk"
    "length (user_answers gk) = answered (asked past w)"
    by simp_all
  have "score gk \<le> score g' \<and> current_question g' = Suc (current_question gk)
        \<and> (case ask_question q wk of
              Some (Inr ((None, quick), w1)) \<Rightarrow>
                score g' = score gk \<and> user_answers g' = user_answers gk
            | _ \<Rightarrow> length (user_answers g') = Suc (length (user_answers gk)))"
    if "run_question q gk wk = Some (Inr (g', w'))" for q g' w'
  proof -
    from run_question_effect [OF that] obtain r b where
      e: "ask_question q wk = Some (Inr ((r, b), w'))"
         "current_question g' = Suc (current_question gk)"
         "score gk \<le> score g'"
         "length (user_answers g') = length (user_answers gk) + (if r = None then 0 else 1)"
         "r = None \<longrightarrow> g' = gk\<lparr>current_question := Suc (current_question gk)\<rparr>"
      by blast
    show ?thesis
    proof (cases r)
      case None
      with e show ?thesis by simp
    next
      case (Some a)
      with e show ?thesis by simp
    qed
  qed
  with a show ?thesis by simp
qed

theorem session_invariants_witness:
  "\<exists>gk wk. run_loop (take 2 sample_questions) init session_world = Some (Inr (gk, wk))
     \<and> current_question gk = 2
     \<and> current_question gk \<le> length sample_questions
     \<and> score gk = 1.5
     \<and> length (user_answers gk) = 1
     \<and> asked (take 2 sample_questions) session_world = [(Some ''B'', True), (None, False)]
     \<and> (\<exists>g3 w3. run_question sample3 gk wk = Some (Inr (g3, w3))
           \<and> score g3 = score gk \<and> current_question g3 = 3
           \<and> user_answers g3 = user_answers gk)"
proof -
  let ?gk = "init\<lparr>score := 1.5, current_question := 2,
    user_answers := [\<lparr>ar_question = ''What is the output of print(3 * 7) in Python?'',
      ar_user_answer = ''B'', ar_correct_answer = ''B'', ar_is_correct = True\<rparr>]\<rparr>"
  let ?wk = "\<lparr>stdin = [Line ''x'', Line ''a''],
    clock = (\<lambda>n. if n < 6 then 2 * real n else 100), ticks = 5\<rparr>"
  have ev: "run_loop (take 2 sample_questions) init session_world = Some (Inr (?gk, ?wk))"
    by (simp add: run_defs prompt_defs upper_defs sample_defs init_def session_world_def)
  have i: "current_question init = 0" "score init = 0" "user_answers init = []"
    by (simp_all add: init_def)
  have a: "asked (take 2 sample_questions) session_world = [(Some ''B'', True), (None, False)]"
    by (simp add: prompt_defs upper_defs sample_defs session_world_def)
  have n: "run_question sample3 ?gk ?wk =
      Some (Inr (?gk\<lparr>current_question := 3\<rparr>, ?wk\<lparr>stdin := [Line ''a''], ticks := 7\<rparr>))"
    by (simp add: run_defs prompt_defs upper_defs sample_defs init_def)
  from session_invariants [OF i ev, of "[sample3]"] ev a n
  show ?thesis
    by (simp add: init_def sample_questions_def)
qed

text \<open>
  Claim C10. When the game starts at score 0 on the questions \<open>qs\<close> and the prompt
  returns, for each question, its correct answer with the quick flag, the loop ends
  normally with the score \<open>1.5 * length qs\<close>; for a session that is not empty the
  percentage shown is 150 and the message is the first one.
\<close>

theorem quick_perfect_session:
  assumes "score g = 0" and "filtered_questions g = qs"
    and "asked qs w = map (\<lambda>q. (correct_answer q, True)) qs"
  shows "\<exists>g' w'. run_loop qs g w = Some (Inr (g', w'))
           \<and> score g' = 1.5 * real (length qs)
           \<and> percentage g' = (if qs = [] then 0 else 150)
           \<and> performance_feedback (percentage g') =
               (if qs = [] then Keep_studying else Excellent)"
proof -
  from quick_perfect_loop [OF assms(3), of g] obtain g' w' where
    l: "run_loop qs g w = Some (Inr (g', w'))"
       "score g' = score g + 1.5 * real (length qs)"
       "filtered_questions g' = filtered_questions g"
    by blast
  have "percentage g' = (if qs = [] then 0 else 150)"
  proof (cases qs)
    case Nil
    with l assms(2) show ?thesis by (simp add: percentage_def)
  next
    case (Cons x xs)
    then have "real (length qs) > 0" by simp
    with l assms(1,2) Cons show ?thesis
      by (simp add: percentage_def Let_def field_simps)
  qed
  moreover have "performance_feedback (if qs = [] then 0 else 150) =
      (if qs = [] then Keep_studying else Excellent)"
    by (simp add: performance_feedback_def)
  ultimately show ?thesis using l assms(1) by auto
qed

theorem quick_perfect_session_witness:
  "asked sample_questions quick_world = map (\<lambda>q. (correct_answer q, True)) sample_questions
   \<and> (\<exists>g' w'. run_loop sample_questions (init\<lparr>filtered_questions := sample_questions\<rparr>)
          quick_world = Some (Inr (g', w'))
        \<and> score g' = 4.5 \<and> percentage g' = 150
        \<and> performance_feedback (percentage g') = Excellent
        \<and> real (length sample_questions) < score g')"
proof -
  have a: "asked sample_questions quick_world =
      map (\<lambda>q. (correct_answer q, True)) sample_questions"
    by (simp add: prompt_defs upper_defs sample_defs quick_world_def)
  have i: "score (init\<lparr>filtered_questions := sample_questions\<rparr>) = 0"
    "filtered_questions (init\<lparr>filtered_questions := sample_questions\<rparr>) = sample_questions"
    by (simp_all add: init_def)
  have n: "sample_questions \<noteq> []" "real (length sample_questions) = 3"
    by (simp_all add: sample_questions_def)
  from quick_perfect_session [OF i a] a n show ?thesis
    by auto
qed

end
